theory Spec2Isabelle
  imports Complex_Main "HOL-Library.Sublist" "HOL-Library.Multiset"
begin

section \<open>Data model (app/models/location.py)\<close>

text \<open>
  \<^verbatim>\<open>Coordinates\<close> and \<^verbatim>\<open>Location\<close> are pydantic models. A validated coordinate is a
  finite float inside its range, modelled as a real number. The fields \<^verbatim>\<open>id\<close> and
  \<^verbatim>\<open>type\<close> carry a suffix, their names being taken in HOL.
\<close>

record Coordinates =
  latitude :: real
  longitude :: real

record Location =
  id_loc :: "string option"
  name :: string
  address :: string
  city :: "string option"
  state :: "string option"
  postal_code :: "string option"
  country :: "string option"
  coordinates :: Coordinates
  region :: "string option"
  type_loc :: "string option"
  active :: bool

text \<open>
  Exceptions are values: the service's own \<^verbatim>\<open>LocationServiceError\<close>, the two
  builtin exceptions the loaders catch row by row, and \<^verbatim>\<open>TypeError\<close>, which they do
  not catch. Each carries its message.
\<close>

datatype error =
  LocationServiceError string | KeyError string | ValueError string | TypeError string

text \<open>
  The state of a \<^verbatim>\<open>LocationService\<close> object, as \<^verbatim>\<open>__init__\<close> lays it out. A
  \<^verbatim>\<open>datetime\<close> is a number of clock ticks.
\<close>

record LocationService =
  locations :: "Location list"
  last_loaded :: "nat option"
  data_source_type :: string

definition init :: "string \<Rightarrow> LocationService" where
  "init source_type =
     \<lparr>locations = [], last_loaded = None, data_source_type = source_type\<rparr>"


section \<open>Python builtins used by the resolver\<close>

text \<open>
  \<^verbatim>\<open>min(xs, key=f)\<close> scans from the left and replaces the running best only when the
  next key is strictly smaller; on an empty sequence it raises, which is \<open>None\<close> here.
\<close>

fun min_scan :: "('a \<Rightarrow> 'k::linorder) \<Rightarrow> 'a \<Rightarrow> 'a list \<Rightarrow> 'a" where
  "min_scan key best [] = best"
| "min_scan key best (x # xs) =
     min_scan key (if key x < key best then x else best) xs"

fun min_py :: "('a \<Rightarrow> 'k::linorder) \<Rightarrow> 'a list \<Rightarrow> 'a option" where
  "min_py key [] = None"
| "min_py key (x # xs) = Some (min_scan key x xs)"

text \<open>
  \<^verbatim>\<open>sorted(xs, key=f)\<close> is a stable sort; \<^const>\<open>sort_key\<close> is the stable insertion sort
  of the list library.
\<close>

definition sorted_py :: "('a \<Rightarrow> 'k::linorder) \<Rightarrow> 'a list \<Rightarrow> 'a list" where
  "sorted_py key xs = sort_key key xs"

text \<open>
  The slice \<^verbatim>\<open>xs[:n]\<close>: the first \<open>n\<close> elements when \<open>n\<close> is not negative, and
  all but the last \<open>-n\<close> elements when it is.
\<close>

definition slice_to :: "int \<Rightarrow> 'a list \<Rightarrow> 'a list" where
  "slice_to n xs =
     (if 0 \<le> n then take (nat n) xs else take (nat (int (length xs) + n)) xs)"


section \<open>The resolver (app/services/location_service.py)\<close>

text \<open>
  \<^verbatim>\<open>haversine\<close> comes from a third-party package; the search functions take it
  as the parameter \<open>haversine\<close>, from two (latitude, longitude) pairs to kilometers.
\<close>

type_synonym point = "real \<times> real"

definition distance_to :: "(point \<Rightarrow> point \<Rightarrow> real) \<Rightarrow> Coordinates \<Rightarrow> Location \<Rightarrow> real" where
  "distance_to haversine c location =
     (let point1 = (latitude c, longitude c);
          point2 = (latitude (coordinates location), longitude (coordinates location))
      in haversine point1 point2)"

text \<open>The loop that fills \<^verbatim>\<open>distances\<close>, one pair per active location, in order.\<close>

definition distances_of ::
  "(point \<Rightarrow> point \<Rightarrow> real) \<Rightarrow> Coordinates \<Rightarrow> Location list \<Rightarrow> (Location \<times> real) list" where
  "distances_of haversine c active_locations =
     map (\<lambda>location. (location, distance_to haversine c location)) active_locations"

definition find_nearest_location ::
  "(point \<Rightarrow> point \<Rightarrow> real) \<Rightarrow> LocationService \<Rightarrow> Coordinates \<Rightarrow> error + (Location \<times> real)" where
  "find_nearest_location haversine self c =
     (if locations self = [] then Inl (LocationServiceError ''No locations loaded'')
      else
        let active_locations = filter active (locations self) in
        if active_locations = [] then Inl (LocationServiceError ''No active locations found'')
        else
          (case min_py snd (distances_of haversine c active_locations) of
             Some nearest \<Rightarrow> Inr nearest
           | None \<Rightarrow> Inl (ValueError ''min() arg is an empty sequence'')))"

definition find_nearest_n_locations ::
  "(point \<Rightarrow> point \<Rightarrow> real) \<Rightarrow> LocationService \<Rightarrow> Coordinates \<Rightarrow> int
     \<Rightarrow> error + (Location \<times> real) list" where
  "find_nearest_n_locations haversine self c n =
     (if locations self = [] then Inl (LocationServiceError ''No locations loaded'')
      else
        let active_locations = filter active (locations self) in
        if active_locations = [] then Inl (LocationServiceError ''No active locations found'')
        else Inr (slice_to n (sorted_py snd (distances_of haversine c active_locations))))"

definition get_location_by_id :: "LocationService \<Rightarrow> string \<Rightarrow> Location option" where
  "get_location_by_id self location_id =
     find (\<lambda>location. id_loc location = Some location_id) (locations self)"

definition get_locations_by_region :: "LocationService \<Rightarrow> string \<Rightarrow> Location list" where
  "get_locations_by_region self r =
     filter (\<lambda>loc. region loc = Some r) (locations self)"

definition get_locations_count :: "LocationService \<Rightarrow> (string \<rightharpoonup> int)" where
  "get_locations_count self =
     (let active_count = int (length (filter active (locations self)));
          inactive_count = int (length (locations self)) - active_count
      in [''total'' \<mapsto> int (length (locations self)),
          ''active'' \<mapsto> active_count,
          ''inactive'' \<mapsto> inactive_count])"


definition calculate_distance ::
  "(point \<Rightarrow> point \<Rightarrow> real) \<Rightarrow> Coordinates \<Rightarrow> Coordinates \<Rightarrow> real" where
  "calculate_distance haversine point1 point2 =
     (let coord1 = (latitude point1, longitude point1);
          coord2 = (latitude point2, longitude point2)
      in haversine coord1 coord2)"


section \<open>The distance formula\<close>

text \<open>
  The two-argument arctangent, with the value 0 at the origin as in Python's
  \<^verbatim>\<open>math.atan2\<close>.
\<close>

definition atan2 :: "real \<Rightarrow> real \<Rightarrow> real" where
  "atan2 y x =
     (if 0 < x then arctan (y / x)
      else if x < 0 \<and> 0 \<le> y then arctan (y / x) + pi
      else if x < 0 then arctan (y / x) - pi
      else if 0 < y then pi / 2
      else if y < 0 then - pi / 2
      else 0)"

definition radians :: "real \<Rightarrow> real" where
  "radians d = d * pi / 180"

text \<open>
  Modelled from the spec: the body of \<^verbatim>\<open>haversine\<close>, which the service imports from a
  package outside the repository. The spec gives the formula: degrees converted to
  radians, \<^verbatim>\<open>a = sin^2(dlat/2) + cos(lat1) * cos(lat2) * sin^2(dlon/2)\<close>,
  \<^verbatim>\<open>c = 2 * atan2(sqrt(a), sqrt(1 - a))\<close>, distance \<^verbatim>\<open>R * c\<close> with \<^verbatim>\<open>R = 6371.0088\<close> km.
  The arithmetic is that of the real numbers; rounding is not modelled.
\<close>

definition haversine_km :: "point \<Rightarrow> point \<Rightarrow> real" where
  "haversine_km p q =
     (let lat1 = radians (fst p); lon1 = radians (snd p);
          lat2 = radians (fst q); lon2 = radians (snd q);
          a = (sin ((lat2 - lat1) / 2))\<^sup>2 + cos lat1 * cos lat2 * (sin ((lon2 - lon1) / 2))\<^sup>2;
          c = 2 * atan2 (sqrt a) (sqrt (1 - a))
      in 6371.0088 * c)"


section \<open>Loading the registry\<close>

subsection \<open>Raw records\<close>

text \<open>
  A Python float: finite, infinite or not a number.
\<close>

datatype pyfloat = Finite real | PosInf | NegInf | NaN

text \<open>
  A coordinate cell of a raw record is a float already, or text, or Python's
  \<^verbatim>\<open>None\<close> (\<open>Null\<close>, a database NULL). A raw record has the columns the loaders
  read; \<open>None\<close> is an absent key, on which \<^verbatim>\<open>row[key]\<close> raises \<^verbatim>\<open>KeyError\<close> and
  \<^verbatim>\<open>row.get(key)\<close> gives its default. The text columns hold text and \<^verbatim>\<open>active\<close>
  a truth value.
\<close>

datatype cell = Number pyfloat | Text string | Null

record row =
  row_id :: "string option"
  row_name :: "string option"
  row_address :: "string option"
  row_city :: "string option"
  row_state :: "string option"
  row_postal_code :: "string option"
  row_country :: "string option"
  row_latitude :: "cell option"
  row_longitude :: "cell option"
  row_region :: "string option"
  row_type :: "string option"
  row_active :: "bool option"

text \<open>\<^verbatim>\<open>row[key]\<close>.\<close>

definition getitem :: "string \<Rightarrow> 'a option \<Rightarrow> error + 'a" where
  "getitem key v = (case v of None \<Rightarrow> Inl (KeyError key) | Some x \<Rightarrow> Inr x)"

text \<open>
  \<^verbatim>\<open>float(v)\<close>: the identity on a float; on text it parses or raises
  \<^verbatim>\<open>ValueError\<close>; on \<^verbatim>\<open>None\<close> it raises \<^verbatim>\<open>TypeError\<close>. The parser of the
  builtin is the parameter \<open>float_of_str\<close>.
\<close>

definition float_py :: "(string \<Rightarrow> pyfloat option) \<Rightarrow> cell \<Rightarrow> error + pyfloat" where
  "float_py float_of_str v =
     (case v of
        Number f \<Rightarrow> Inr f
      | Text s \<Rightarrow>
          (case float_of_str s of
             Some f \<Rightarrow> Inr f
           | None \<Rightarrow> Inl (ValueError ''could not convert string to float''))
      | Null \<Rightarrow>
          Inl (TypeError ''float() argument must be a string or a real number, not NoneType''))"

text \<open>
  The field constraints \<^verbatim>\<open>ge\<close> and \<^verbatim>\<open>le\<close> of \<^verbatim>\<open>Coordinates\<close>: a comparison with
  NaN is false, so NaN passes neither.
\<close>

fun ge_le :: "real \<Rightarrow> real \<Rightarrow> pyfloat \<Rightarrow> real option" where
  "ge_le lo hi (Finite r) = (if lo \<le> r \<and> r \<le> hi then Some r else None)"
| "ge_le lo hi PosInf = None"
| "ge_le lo hi NegInf = None"
| "ge_le lo hi NaN = None"

text \<open>
  The constructor \<^verbatim>\<open>Coordinates(latitude=.., longitude=..)\<close>; a pydantic
  \<^verbatim>\<open>ValidationError\<close> is a \<^verbatim>\<open>ValueError\<close>.
\<close>

definition make_Coordinates :: "pyfloat \<Rightarrow> pyfloat \<Rightarrow> error + Coordinates" where
  "make_Coordinates lat lon =
     (case (ge_le (-90) 90 lat, ge_le (-180) 180 lon) of
        (Some la, Some lo) \<Rightarrow> Inr \<lparr>latitude = la, longitude = lo\<rparr>
      | _ \<Rightarrow> Inl (ValueError ''validation error for Coordinates''))"

text \<open>
  The expression \<^verbatim>\<open>Location(id=str(row.get("id", "")), name=row["name"], ...)\<close> of the
  loaders, its arguments evaluated in the order written.
\<close>

definition make_location :: "(string \<Rightarrow> pyfloat option) \<Rightarrow> row \<Rightarrow> error + Location" where
  "make_location float_of_str r =
     (case getitem ''name'' (row_name r) of Inl e \<Rightarrow> Inl e | Inr name_v \<Rightarrow>
     (case getitem ''address'' (row_address r) of Inl e \<Rightarrow> Inl e | Inr address_v \<Rightarrow>
     (case getitem ''latitude'' (row_latitude r) of Inl e \<Rightarrow> Inl e | Inr lat_cell \<Rightarrow>
     (case float_py float_of_str lat_cell of Inl e \<Rightarrow> Inl e | Inr lat \<Rightarrow>
     (case getitem ''longitude'' (row_longitude r) of Inl e \<Rightarrow> Inl e | Inr lon_cell \<Rightarrow>
     (case float_py float_of_str lon_cell of Inl e \<Rightarrow> Inl e | Inr lon \<Rightarrow>
     (case make_Coordinates lat lon of Inl e \<Rightarrow> Inl e | Inr coords \<Rightarrow>
      Inr \<lparr>id_loc = Some (case row_id r of None \<Rightarrow> [] | Some s \<Rightarrow> s),
           name = name_v,
           address = address_v,
           city = row_city r,
           state = row_state r,
           postal_code = row_postal_code r,
           country = row_country r,
           coordinates = coords,
           region = row_region r,
           type_loc = row_type r,
           active = (case row_active r of None \<Rightarrow> True | Some b \<Rightarrow> b)\<rparr>)))))))"

subsection \<open>The loaders\<close>

text \<open>
  What a data source gives when it is opened: a failure before the \<^verbatim>\<open>try\<close> block (file
  or configuration missing), a failure of the read inside it, or the raw records.
\<close>

datatype source = Missing string | Unreadable string | Table "row list"

record env =
  csv_file :: source
  google_sheet :: source
  database :: source
  utcnow :: nat

text \<open>\<^verbatim>\<open>str(e)\<close> of an exception.\<close>

fun message :: "error \<Rightarrow> string" where
  "message (LocationServiceError m) = m"
| "message (KeyError m) = m"
| "message (ValueError m) = m"
| "message (TypeError m) = m"

text \<open>
  A stateful operation returns its result and the history of the service object: the
  state it started from, then the state after each assignment or append, in order. The
  last entry is the state the object is left in.

  The row loop: an accepted row is appended to \<^verbatim>\<open>self.locations\<close> in place; a
  \<^verbatim>\<open>KeyError\<close> or \<^verbatim>\<open>ValueError\<close> skips the row; any other exception leaves the loop.
\<close>

fun process_rows ::
  "(string \<Rightarrow> pyfloat option) \<Rightarrow> row list \<Rightarrow> LocationService
     \<Rightarrow> (error + unit) \<times> LocationService list" where
  "process_rows float_of_str [] self = (Inr (), [self])"
| "process_rows float_of_str (r # rows) self =
     (case make_location float_of_str r of
        Inr location \<Rightarrow>
          (case process_rows float_of_str rows
                  (self\<lparr>locations := locations self @ [location]\<rparr>) of
             (res, history) \<Rightarrow> (res, self # history))
      | Inl (KeyError m) \<Rightarrow> process_rows float_of_str rows self
      | Inl (ValueError m) \<Rightarrow> process_rows float_of_str rows self
      | Inl e \<Rightarrow> (Inl e, [self]))"

text \<open>
  The three loaders have the same shape and differ in their source and their messages:
  a check before the \<^verbatim>\<open>try\<close>, the read, \<^verbatim>\<open>self.locations = []\<close>, the row loop, and
  the outer handler that wraps whatever escaped.
\<close>

definition load_from ::
  "string \<Rightarrow> (string \<Rightarrow> pyfloat option) \<Rightarrow> source \<Rightarrow> LocationService
     \<Rightarrow> (error + unit) \<times> LocationService list" where
  "load_from label float_of_str src self =
     (case src of
        Missing m \<Rightarrow> (Inl (LocationServiceError m), [self])
      | Unreadable m \<Rightarrow>
          (Inl (LocationServiceError (''Error loading from '' @ label @ '': '' @ m)), [self])
      | Table rows \<Rightarrow>
          (case process_rows float_of_str rows (self\<lparr>locations := []\<rparr>) of
             (Inl e, history) \<Rightarrow>
               (Inl (LocationServiceError (''Error loading from '' @ label @ '': '' @ message e)),
                self # history)
           | (Inr u, history) \<Rightarrow> (Inr (), self # history)))"

definition load_from_csv ::
  "(string \<Rightarrow> pyfloat option) \<Rightarrow> env \<Rightarrow> LocationService
     \<Rightarrow> (error + unit) \<times> LocationService list" where
  "load_from_csv float_of_str e self = load_from ''CSV'' float_of_str (csv_file e) self"

definition load_from_google_sheets ::
  "(string \<Rightarrow> pyfloat option) \<Rightarrow> env \<Rightarrow> LocationService
     \<Rightarrow> (error + unit) \<times> LocationService list" where
  "load_from_google_sheets float_of_str e self =
     load_from ''Google Sheets'' float_of_str (google_sheet e) self"

definition load_from_database ::
  "(string \<Rightarrow> pyfloat option) \<Rightarrow> env \<Rightarrow> LocationService
     \<Rightarrow> (error + unit) \<times> LocationService list" where
  "load_from_database float_of_str e self =
     load_from ''database'' float_of_str (database e) self"

definition load_locations ::
  "(string \<Rightarrow> pyfloat option) \<Rightarrow> env \<Rightarrow> LocationService
     \<Rightarrow> (error + Location list) \<times> LocationService list" where
  "load_locations float_of_str e self =
     (case (if data_source_type self = ''csv'' then load_from_csv float_of_str e self
            else if data_source_type self = ''google_sheets''
              then load_from_google_sheets float_of_str e self
            else if data_source_type self = ''postgres''
              then load_from_database float_of_str e self
            else (Inl (LocationServiceError
                         (''Unsupported data source type: '' @ data_source_type self)),
                  [self])) of
        (Inl err, history) \<Rightarrow>
          (Inl (LocationServiceError (''Failed to load locations: '' @ message err)), history)
      | (Inr u, history) \<Rightarrow>
          (let self' = (last history)\<lparr>last_loaded := Some (utcnow e)\<rparr>
           in (Inr (locations self'), history @ [self'])))"

definition reload_locations ::
  "(string \<Rightarrow> pyfloat option) \<Rightarrow> env \<Rightarrow> LocationService
     \<Rightarrow> (error + Location list) \<times> LocationService list" where
  "reload_locations float_of_str e self = load_locations float_of_str e self"


section \<open>Notions used to state the properties\<close>

text \<open>
  \<open>first_min_at key xs m\<close>: the element \<open>m\<close> occurs in \<open>xs\<close> at a position such that
  every earlier element has a strictly larger key and no later element a smaller one.
\<close>

definition first_min_at :: "('a \<Rightarrow> 'k::linorder) \<Rightarrow> 'a list \<Rightarrow> 'a \<Rightarrow> bool" where
  "first_min_at key xs m \<longleftrightarrow>
     (\<exists>pre post. xs = pre @ m # post
        \<and> (\<forall>y\<in>set pre. key m < key y) \<and> (\<forall>y\<in>set post. key m \<le> key y))"

text \<open>
  The value a coordinate cell stands for, when it stands for one: a finite number,
  given directly or as text that parses to one.
\<close>

fun numeric :: "(string \<Rightarrow> pyfloat option) \<Rightarrow> cell \<Rightarrow> real option" where
  "numeric float_of_str (Number (Finite x)) = Some x"
| "numeric float_of_str (Number f) = None"
| "numeric float_of_str (Text s) =
     (case float_of_str s of Some (Finite x) \<Rightarrow> Some x | _ \<Rightarrow> None)"
| "numeric float_of_str Null = None"

text \<open>
  A well-formed raw record, in the words of the specification: the four required fields
  are present and both coordinates are numeric and within range.
\<close>

definition coordinate_ok ::
  "(string \<Rightarrow> pyfloat option) \<Rightarrow> real \<Rightarrow> real \<Rightarrow> cell option \<Rightarrow> bool" where
  "coordinate_ok float_of_str lo hi v =
     (case v of
        None \<Rightarrow> False
      | Some c \<Rightarrow> (case numeric float_of_str c of None \<Rightarrow> False | Some x \<Rightarrow> lo \<le> x \<and> x \<le> hi))"

definition well_formed :: "(string \<Rightarrow> pyfloat option) \<Rightarrow> row \<Rightarrow> bool" where
  "well_formed float_of_str r \<longleftrightarrow>
     row_name r \<noteq> None \<and> row_address r \<noteq> None
     \<and> coordinate_ok float_of_str (-90) 90 (row_latitude r)
     \<and> coordinate_ok float_of_str (-180) 180 (row_longitude r)"

text \<open>The hubs of the rows that construct one, in the order of the rows.\<close>

definition hubs_of :: "(string \<Rightarrow> pyfloat option) \<Rightarrow> row list \<Rightarrow> Location list" where
  "hubs_of float_of_str rows =
     concat (map (\<lambda>r. case make_location float_of_str r of Inr l \<Rightarrow> [l] | Inl e \<Rightarrow> []) rows)"

text \<open>
  A raw record escapes the row handlers when constructing its hub raises an exception
  that is neither \<^verbatim>\<open>KeyError\<close> nor \<^verbatim>\<open>ValueError\<close>; the row loop ends there.
\<close>

definition escapes :: "(string \<Rightarrow> pyfloat option) \<Rightarrow> row \<Rightarrow> bool" where
  "escapes float_of_str r =
     (case make_location float_of_str r of
        Inr l \<Rightarrow> False
      | Inl (KeyError m) \<Rightarrow> False
      | Inl (ValueError m) \<Rightarrow> False
      | Inl e \<Rightarrow> True)"

text \<open>The raw records the row loop gets through: those before the first that escapes.\<close>

definition processed :: "(string \<Rightarrow> pyfloat option) \<Rightarrow> row list \<Rightarrow> row list" where
  "processed float_of_str rows = takeWhile (\<lambda>r. \<not> escapes float_of_str r) rows"

text \<open>
  The source that the configured type selects, if the type is a supported one, and a
  failure at the level of the source: an unsupported type, or a source that is missing,
  not configured or cannot be read.
\<close>

definition selected_source :: "env \<Rightarrow> LocationService \<Rightarrow> source option" where
  "selected_source e self =
     (if data_source_type self = ''csv'' then Some (csv_file e)
      else if data_source_type self = ''google_sheets'' then Some (google_sheet e)
      else if data_source_type self = ''postgres'' then Some (database e)
      else None)"

definition source_level_failure :: "env \<Rightarrow> LocationService \<Rightarrow> bool" where
  "source_level_failure e self =
     (case selected_source e self of
        None \<Rightarrow> True
      | Some (Missing m) \<Rightarrow> True
      | Some (Unreadable m) \<Rightarrow> True
      | Some (Table rows) \<Rightarrow> False)"


section \<open>Sample data\<close>

text \<open>A stand-in distance for concrete runs: the sum of the coordinate differences.\<close>

definition taxicab :: "point \<Rightarrow> point \<Rightarrow> real" where
  "taxicab p q = \<bar>fst p - fst q\<bar> + \<bar>snd p - snd q\<bar>"

definition hub :: "string \<Rightarrow> real \<Rightarrow> real \<Rightarrow> bool \<Rightarrow> Location" where
  "hub n lat lon a =
     \<lparr>id_loc = Some n, name = n, address = ''1 Main St'', city = None, state = None,
      postal_code = None, country = None,
      coordinates = \<lparr>latitude = lat, longitude = lon\<rparr>,
      region = None, type_loc = None, active = a\<rparr>"

definition registry :: "Location list \<Rightarrow> LocationService" where
  "registry ls = \<lparr>locations = ls, last_loaded = Some 7, data_source_type = ''csv''\<rparr>"

definition point_at :: "real \<Rightarrow> real \<Rightarrow> Coordinates" where
  "point_at lat lon = \<lparr>latitude = lat, longitude = lon\<rparr>"

text \<open>A parser that knows a few numerals, and a raw record with the four required fields.\<close>

definition parse2 :: "string \<Rightarrow> pyfloat option" where
  "parse2 s = (if s = ''41.5'' then Some (Finite 41.5)
               else if s = ''-87.5'' then Some (Finite (-87.5))
               else if s = ''10'' then Some (Finite 10)
               else if s = ''-33'' then Some (Finite (-33))
               else if s = ''0'' then Some (Finite 0)
               else None)"

definition raw :: "string \<Rightarrow> cell \<Rightarrow> cell \<Rightarrow> row" where
  "raw n lat lon =
     \<lparr>row_id = Some n, row_name = Some n, row_address = Some ''1 Main St'',
      row_city = None, row_state = None, row_postal_code = None, row_country = None,
      row_latitude = Some lat, row_longitude = Some lon,
      row_region = None, row_type = None, row_active = None\<rparr>"

definition world :: "source \<Rightarrow> env" where
  "world src = \<lparr>csv_file = src, google_sheet = Missing ''Google Sheets ID not configured'',
                database = Missing ''Database URL not configured'', utcnow = 42\<rparr>"


text \<open>
  Five raw records, the third with a latitude that is not a number (so that the whole
  latitude column is text), and a shorter source of two records.
\<close>

definition five_rows :: "row list" where
  "five_rows =
     [raw ''H1'' (Text ''10'') (Number (Finite 20)),
      raw ''H2'' (Text ''41.5'') (Number (Finite (-87))),
      raw ''H3'' (Text ''abc'') (Number (Finite 5)),
      raw ''H4'' (Text ''-33'') (Number (Finite 151)),
      raw ''H5'' (Text ''0'') (Number (Finite 0))]"

text \<open>
  Five records as a database gives them when its latitude column is of a text type and
  the third record has a NULL there, a service configured for the database, and a world
  whose database is the given source.
\<close>

definition five_rows_null :: "row list" where
  "five_rows_null =
     [raw ''H1'' (Text ''10'') (Number (Finite 20)),
      raw ''H2'' (Text ''41.5'') (Number (Finite (-87))),
      raw ''H3'' Null (Number (Finite 5)),
      raw ''H4'' (Text ''-33'') (Number (Finite 151)),
      raw ''H5'' (Text ''0'') (Number (Finite 0))]"

definition pg_registry :: "Location list \<Rightarrow> LocationService" where
  "pg_registry ls = \<lparr>locations = ls, last_loaded = Some 7, data_source_type = ''postgres''\<rparr>"

definition pg_world :: "source \<Rightarrow> env" where
  "pg_world src = \<lparr>csv_file = Missing ''CSV file not found: data/locations.csv'',
                   google_sheet = Missing ''Google Sheets ID not configured'',
                   database = src, utcnow = 42\<rparr>"



section \<open>Facts about the builtins\<close>

text \<open>The scan of \<^verbatim>\<open>min\<close> ends on the first occurrence of the least key.\<close>

lemma min_scan_le: "key (min_scan key b xs) \<le> key b"
proof (induction xs arbitrary: b)
  case Nil show ?case by simp
next
  case (Cons x xs)
  show ?case
    using Cons.IH [of x] Cons.IH [of b] by (auto simp: less_imp_le order.trans)
qed

lemma min_scan_split:
  "\<exists>pre post. b # xs = pre @ min_scan key b xs # post
     \<and> (\<forall>y\<in>set pre. key (min_scan key b xs) < key y)
     \<and> (\<forall>y\<in>set post. key (min_scan key b xs) \<le> key y)"
proof (induction xs arbitrary: b)
  case Nil
  have "[b] = [] @ b # [] \<and> (\<forall>y\<in>set []. key b < key y) \<and> (\<forall>y\<in>set []. key b \<le> key y)"
    by simp
  then show ?case unfolding min_scan.simps by blast
next
  case (Cons x xs)
  show ?case
  proof (cases "key x < key b")
    case True
    define M where "M = min_scan key x xs"
    have m: "min_scan key b (x # xs) = M" using True by (simp add: M_def)
    from Cons.IH [of x] obtain pre post where
      s: "x # xs = pre @ M # post"
      and p: "\<forall>y\<in>set pre. key M < key y"
      and q: "\<forall>y\<in>set post. key M \<le> key y" unfolding M_def by blast
    have "key M \<le> key x" unfolding M_def by (rule min_scan_le)
    with True have "key M < key b" by simp
    with s p q have "b # x # xs = (b # pre) @ M # post
       \<and> (\<forall>y\<in>set (b # pre). key M < key y)
       \<and> (\<forall>y\<in>set post. key M \<le> key y)" by simp
    then show ?thesis unfolding m by blast
  next
    case False
    define M where "M = min_scan key b xs"
    have m: "min_scan key b (x # xs) = M" using False by (simp add: M_def)
    from Cons.IH [of b] obtain pre post where
      s: "b # xs = pre @ M # post"
      and p: "\<forall>y\<in>set pre. key M < key y"
      and q: "\<forall>y\<in>set post. key M \<le> key y" unfolding M_def by blast
    show ?thesis
    proof (cases pre)
      case Nil
      with s have e: "M = b" "post = xs" by simp_all
      with False q have "b # x # xs = [] @ M # (x # xs)
         \<and> (\<forall>y\<in>set []. key M < key y)
         \<and> (\<forall>y\<in>set (x # xs). key M \<le> key y)" by auto
      then show ?thesis unfolding m by blast
    next
      case (Cons a pre')
      with s have a: "a = b" and xs: "xs = pre' @ M # post" by simp_all
      from p Cons a have "key M < key b" by simp
      with False have "key M < key x" by simp
      with p Cons a xs have "b # x # xs = (b # x # pre') @ M # post
         \<and> (\<forall>y\<in>set (b # x # pre'). key M < key y)" by auto
      with q show ?thesis unfolding m by blast
    qed
  qed
qed

lemma split_unique:
  fixes key :: "'a \<Rightarrow> 'k::linorder"
  assumes "pre @ m # post = pre' @ m' # post'"
    and "\<forall>y\<in>set pre. key m < key y" "\<forall>y\<in>set post. key m \<le> key y"
    and "\<forall>y\<in>set pre'. key m' < key y" "\<forall>y\<in>set post'. key m' \<le> key y"
  shows "pre = pre' \<and> m = m' \<and> post = post'"
  using assms
proof (induction pre arbitrary: pre')
  case Nil
  then show ?case by (cases pre') auto
next
  case (Cons a pre)
  then show ?case by (cases pre') (auto simp: not_less [symmetric])
qed

lemma hd_insort_key:
  "hd (insort_key key x ys) = (if ys = [] \<or> key x \<le> key (hd ys) then x else hd ys)"
  by (cases ys) auto

lemma first_min_atI:
  "xs = pre @ m # post \<Longrightarrow> \<forall>y\<in>set pre. key m < key y \<Longrightarrow> \<forall>y\<in>set post. key m \<le> key y
     \<Longrightarrow> first_min_at key xs m"
  unfolding first_min_at_def by blast

lemma first_min_at_sort_key:
  "xs \<noteq> [] \<Longrightarrow> first_min_at key xs (hd (sort_key key xs))"
proof (induction xs)
  case Nil
  then show ?case by simp
next
  case (Cons x xs)
  show ?case
  proof (cases "xs = []")
    case True
    have "first_min_at key [x] x"
      by (rule first_min_atI [of _ "[]" _ "[]"]) simp_all
    then show ?thesis using True by simp
  next
    case False
    define h where "h = hd (sort_key key xs)"
    from Cons.IH [OF False] obtain pre post where
      s: "xs = pre @ h # post"
      and p: "\<forall>y\<in>set pre. key h < key y"
      and q: "\<forall>y\<in>set post. key h \<le> key y" unfolding h_def first_min_at_def by blast
    have ne: "sort_key key xs \<noteq> []" using False by (metis length_0_conv length_sort)
    have hd_eq: "hd (sort_key key (x # xs)) = (if key x \<le> key h then x else h)"
      using ne by (simp add: hd_insort_key h_def)
    show ?thesis
    proof (cases "key x \<le> key h")
      case True
      have all: "\<forall>y\<in>set xs. key x \<le> key y"
      proof
        fix y assume "y \<in> set xs"
        then have "y \<in> set pre \<or> y = h \<or> y \<in> set post" using s by auto
        then have "key h \<le> key y" using p q by auto
        with True show "key x \<le> key y" by simp
      qed
      have "first_min_at key (x # xs) x"
        by (rule first_min_atI [of _ "[]" _ xs]) (simp_all add: all)
      then show ?thesis using True hd_eq by simp
    next
      case False
      then have lt: "key h < key x" by simp
      have "first_min_at key (x # xs) h"
        by (rule first_min_atI [of _ "x # pre" _ post]) (use s p q lt in simp_all)
      then show ?thesis using False hd_eq by simp
    qed
  qed
qed

lemma first_min_at_min_scan: "first_min_at key (b # xs) (min_scan key b xs)"
  unfolding first_min_at_def by (rule min_scan_split)

lemma first_min_at_unique:
  assumes "first_min_at key xs m" "first_min_at key xs m'"
  shows "m = m'"
proof -
  from assms(1) obtain pre post where a: "xs = pre @ m # post"
    "\<forall>y\<in>set pre. key m < key y" "\<forall>y\<in>set post. key m \<le> key y"
    unfolding first_min_at_def by blast
  from assms(2) obtain pre' post' where b: "xs = pre' @ m' # post'"
    "\<forall>y\<in>set pre'. key m' < key y" "\<forall>y\<in>set post'. key m' \<le> key y"
    unfolding first_min_at_def by blast
  from a(1) b(1) have "pre @ m # post = pre' @ m' # post'" by simp
  from split_unique [OF this a(2,3) b(2,3)] show ?thesis by simp
qed

lemma hd_sort_key_min_scan:
  "hd (sort_key key (x # xs)) = min_scan key x xs"
  by (rule first_min_at_unique [OF first_min_at_sort_key first_min_at_min_scan]) simp


section \<open>Facts about the resolver\<close>

lemma filter_split:
  "filter P xs = us @ m # vs \<Longrightarrow>
     \<exists>pre post. xs = pre @ m # post \<and> filter P pre = us \<and> filter P post = vs \<and> P m"
proof (induction xs arbitrary: us)
  case Nil
  then show ?case by simp
next
  case (Cons x xs)
  show ?case
  proof (cases "P x")
    case False
    with Cons.prems have "filter P xs = us @ m # vs" by simp
    from Cons.IH [OF this] obtain pre post where
      "xs = pre @ m # post" "filter P pre = us" "filter P post = vs" "P m" by blast
    with False have "x # xs = (x # pre) @ m # post \<and> filter P (x # pre) = us
        \<and> filter P post = vs \<and> P m" by simp
    then show ?thesis by blast
  next
    case True
    with Cons.prems have e: "x # filter P xs = us @ m # vs" by simp
    show ?thesis
    proof (cases us)
      case Nil
      with e have "x = m" "filter P xs = vs" by simp_all
      with True Nil have "x # xs = [] @ m # xs \<and> filter P [] = us
        \<and> filter P xs = vs \<and> P m" by simp
      then show ?thesis by blast
    next
      case (Cons u us')
      with e have u: "u = x" and f: "filter P xs = us' @ m # vs" by simp_all
      from Cons.IH [OF f] obtain pre post where
        "xs = pre @ m # post" "filter P pre = us'" "filter P post = vs" "P m" by blast
      with True Cons u have "x # xs = (x # pre) @ m # post \<and> filter P (x # pre) = us
        \<and> filter P post = vs \<and> P m" by simp
      then show ?thesis by blast
    qed
  qed
qed

lemma find_nearest_location_eq:
  assumes "filter active (locations self) = a # as"
  shows "find_nearest_location haversine self c =
           Inr (min_scan snd (a, distance_to haversine c a) (distances_of haversine c as))"
proof -
  from assms have "locations self \<noteq> []" by auto
  with assms show ?thesis
    by (simp add: find_nearest_location_def distances_of_def)
qed

lemma find_nearest_n_locations_eq:
  assumes "filter active (locations self) \<noteq> []"
  shows "find_nearest_n_locations haversine self c n =
           Inr (slice_to n (sort_key snd (distances_of haversine c (filter active (locations self)))))"
proof -
  from assms have "locations self \<noteq> []" by auto
  with assms show ?thesis
    by (simp add: find_nearest_n_locations_def sorted_py_def)
qed

lemma first_min_at_pairs:
  assumes "first_min_at snd (map (\<lambda>l. (l, f l)) xs) r"
  shows "\<exists>m pre post. r = (m, f m) \<and> xs = pre @ m # post
           \<and> (\<forall>y\<in>set pre. f m < f y) \<and> (\<forall>y\<in>set post. f m \<le> f y)"
proof -
  let ?pair = "\<lambda>l. (l, f l)"
  from assms obtain ps qs where s: "map ?pair xs = ps @ r # qs"
    and p: "\<forall>y\<in>set ps. snd r < snd y" and q: "\<forall>y\<in>set qs. snd r \<le> snd y"
    unfolding first_min_at_def by blast
  from s have "\<exists>us vs. xs = us @ vs \<and> ps = map ?pair us \<and> r # qs = map ?pair vs"
    by (rule map_eq_append_conv [THEN iffD1])
  then obtain us vs where uv: "xs = us @ vs" "ps = map ?pair us" "r # qs = map ?pair vs"
    by (elim exE conjE)
  from uv(3) obtain m ws where vs: "vs = m # ws" "r = ?pair m" "qs = map ?pair ws"
    by (cases vs) simp_all
  have P: "\<forall>y\<in>set us. f m < f y" using p uv(2) vs(2) by simp
  have Q: "\<forall>y\<in>set ws. f m \<le> f y" using q vs(2,3) by simp
  have "r = (m, f m) \<and> xs = us @ m # ws" using uv(1) vs(1,2) by simp
  with P Q show ?thesis by blast
qed


lemma nearest_position:
  assumes "filter active (locations self) \<noteq> []"
  shows "\<exists>hub pre post.
           find_nearest_location haversine self c = Inr (hub, distance_to haversine c hub)
         \<and> locations self = pre @ hub # post \<and> active hub
         \<and> (\<forall>l\<in>set pre. active l \<longrightarrow> distance_to haversine c hub < distance_to haversine c l)
         \<and> (\<forall>l\<in>set post. active l \<longrightarrow> distance_to haversine c hub \<le> distance_to haversine c l)"
proof -
  let ?d = "distance_to haversine c"
  from assms obtain a as where f: "filter active (locations self) = a # as"
    by (cases "filter active (locations self)") simp_all
  define r where "r = min_scan snd (a, ?d a) (distances_of haversine c as)"
  have res: "find_nearest_location haversine self c = Inr r"
    unfolding r_def by (rule find_nearest_location_eq [OF f])
  have "first_min_at snd ((a, ?d a) # distances_of haversine c as) r"
    unfolding r_def by (rule first_min_at_min_scan)
  then have "first_min_at snd (map (\<lambda>l. (l, ?d l)) (a # as)) r"
    by (simp add: distances_of_def)
  from first_min_at_pairs [OF this] obtain m us ws where
    m: "r = (m, ?d m)" and split: "a # as = us @ m # ws"
    and p: "\<forall>y\<in>set us. ?d m < ?d y" and q: "\<forall>y\<in>set ws. ?d m \<le> ?d y"
    by (elim exE conjE)
  have "filter active (locations self) = us @ m # ws"
    by (rule trans [OF f split])
  from filter_split [OF this] obtain pre post where
    l: "locations self = pre @ m # post" "filter active pre = us" "filter active post = ws" "active m"
    by (elim exE conjE)
  have P: "\<forall>l\<in>set pre. active l \<longrightarrow> ?d m < ?d l"
  proof (intro ballI impI)
    fix x assume "x \<in> set pre" "active x"
    then have "x \<in> set (filter active pre)" by simp
    then have "x \<in> set us" unfolding l(2) .
    with p show "?d m < ?d x" by (rule bspec)
  qed
  have Q: "\<forall>l\<in>set post. active l \<longrightarrow> ?d m \<le> ?d l"
  proof (intro ballI impI)
    fix x assume "x \<in> set post" "active x"
    then have "x \<in> set (filter active post)" by simp
    then have "x \<in> set ws" unfolding l(3) .
    with q show "?d m \<le> ?d x" by (rule bspec)
  qed
  have R: "find_nearest_location haversine self c = Inr (m, ?d m)"
    using res unfolding m .
  show ?thesis
    apply (rule exI [of _ m], rule exI [of _ pre], rule exI [of _ post])
    apply (intro conjI)
        apply (rule R)
       apply (rule l(1))
      apply (rule l(4))
     apply (rule P)
    apply (rule Q)
    done
qed


section \<open>Structural queries\<close>

text \<open>
  C9. On a registry whose hub sequence is empty (no load has succeeded), every structural
  query returns an empty result and none raises: \<^verbatim>\<open>get_location_by_id\<close> gives \<open>None\<close>
  for every id, \<^verbatim>\<open>get_locations_by_region\<close> gives the empty list for every region, and
  \<^verbatim>\<open>get_locations_count\<close> gives total 0, active 0 and inactive 0.
\<close>

theorem queries_on_empty_registry:
  assumes "locations self = []"
  shows "get_location_by_id self location_id = None
       \<and> get_locations_by_region self r = []
       \<and> get_locations_count self = [''total'' \<mapsto> 0, ''active'' \<mapsto> 0, ''inactive'' \<mapsto> 0]"
  using assms
  by (simp add: get_location_by_id_def get_locations_by_region_def get_locations_count_def)

theorem queries_on_empty_registry_witness:
  "locations (init ''csv'') = []
   \<and> get_location_by_id (init ''csv'') ''loc_001'' = None
   \<and> get_locations_by_region (init ''csv'') ''Midwest'' = []
   \<and> get_locations_count (init ''csv'') ''total'' = Some 0
   \<and> get_locations_count (init ''csv'') ''active'' = Some 0
   \<and> get_locations_count (init ''csv'') ''inactive'' = Some 0"
proof -
  have e: "locations (init ''csv'') = []" by (simp add: init_def)
  show ?thesis
    using e queries_on_empty_registry [OF e, of "''loc_001''" "''Midwest''"] by simp
qed


section \<open>Nearest hub\<close>



text \<open>
  C4. When several active hubs attain the least distance, \<^verbatim>\<open>find_nearest_location\<close>
  returns the one that comes first in the registry's order: the returned hub sits at a
  position of the hub sequence before which every active hub is strictly farther, and
  after which no active hub is nearer. The result is a function of the registry, the
  query point and the distance function, so every call with the same inputs returns it.
\<close>

theorem nearest_tie_break_first_in_registry_order:
  assumes "filter active (locations self) \<noteq> []"
  shows "\<exists>hub pre post.
           find_nearest_location haversine self c = Inr (hub, distance_to haversine c hub)
         \<and> locations self = pre @ hub # post \<and> active hub
         \<and> (\<forall>l\<in>set pre. active l \<longrightarrow> distance_to haversine c hub < distance_to haversine c l)
         \<and> (\<forall>l\<in>set post. active l \<longrightarrow> distance_to haversine c hub \<le> distance_to haversine c l)"
  using assms by (rule nearest_position)

theorem nearest_tie_break_first_in_registry_order_witness:
  "filter active (locations (registry [hub ''A'' 0 0 True, hub ''B'' 0 0 True])) \<noteq> []
   \<and> find_nearest_location taxicab (registry [hub ''A'' 0 0 True, hub ''B'' 0 0 True])
        (point_at 3 4) = Inr (hub ''A'' 0 0 True, 7)"
proof -
  let ?reg = "registry [hub ''A'' 0 0 True, hub ''B'' 0 0 True]"
  have ne: "filter active (locations ?reg) \<noteq> []" by (simp add: registry_def hub_def)
  have "find_nearest_location taxicab ?reg (point_at 3 4) = Inr (hub ''A'' 0 0 True, 7)"
    by (simp add: find_nearest_location_def registry_def hub_def distances_of_def
          distance_to_def taxicab_def point_at_def)
  with ne nearest_tie_break_first_in_registry_order [OF ne, of taxicab "point_at 3 4"]
  show ?thesis by simp
qed

text \<open>
  C10. With at least one active hub and \<open>n \<ge> 1\<close>, the first pair of the sequence
  returned by \<^verbatim>\<open>find_nearest_n_locations\<close> is the pair returned by
  \<^verbatim>\<open>find_nearest_location\<close> on the same inputs, ties included: the head of the stable
  sort is the element the left-to-right scan of \<^verbatim>\<open>min\<close> ends on.
\<close>

theorem nearest_n_head_is_nearest:
  assumes "filter active (locations self) \<noteq> []" and "1 \<le> n"
  shows "\<exists>r rs. find_nearest_n_locations haversine self c n = Inr (r # rs)
               \<and> find_nearest_location haversine self c = Inr r"
proof -
  let ?d = "distance_to haversine c"
  from assms(1) obtain a as where f: "filter active (locations self) = a # as"
    by (cases "filter active (locations self)") simp_all
  define ds where "ds = distances_of haversine c (a # as)"
  have ds_cons: "ds = (a, ?d a) # distances_of haversine c as"
    by (simp add: ds_def distances_of_def)
  define srt where "srt = sort_key snd ds"
  have len: "length srt = Suc (length as)"
    by (simp add: srt_def ds_def distances_of_def)
  then obtain r rest where srt_cons: "srt = r # rest" by (cases srt) simp_all
  have "hd srt = min_scan snd (a, ?d a) (distances_of haversine c as)"
    unfolding srt_def ds_cons by (rule hd_sort_key_min_scan)
  then have r: "r = min_scan snd (a, ?d a) (distances_of haversine c as)"
    by (simp add: srt_cons)
  have near: "find_nearest_location haversine self c = Inr r"
    unfolding r by (rule find_nearest_location_eq [OF f])
  from assms(2) obtain k where k: "nat n = Suc k" by (cases "nat n") simp_all
  have "slice_to n srt = r # take k rest"
    using assms(2) by (simp add: slice_to_def srt_cons k)
  then have "find_nearest_n_locations haversine self c n = Inr (r # take k rest)"
    using find_nearest_n_locations_eq [OF assms(1), of haversine c n]
    by (simp add: f srt_def ds_def)
  with near show ?thesis by blast
qed

theorem nearest_n_head_is_nearest_witness:
  "filter active (locations (registry [hub ''A'' 0 2 True, hub ''B'' 0 1 True, hub ''C'' 1 0 True])) \<noteq> []
   \<and> (1::int) \<le> 2
   \<and> find_nearest_n_locations taxicab
        (registry [hub ''A'' 0 2 True, hub ''B'' 0 1 True, hub ''C'' 1 0 True]) (point_at 0 0) 2
      = Inr [(hub ''B'' 0 1 True, 1), (hub ''C'' 1 0 True, 1)]
   \<and> find_nearest_location taxicab
        (registry [hub ''A'' 0 2 True, hub ''B'' 0 1 True, hub ''C'' 1 0 True]) (point_at 0 0)
      = Inr (hub ''B'' 0 1 True, 1)"
proof -
  let ?reg = "registry [hub ''A'' 0 2 True, hub ''B'' 0 1 True, hub ''C'' 1 0 True]"
  have ne: "filter active (locations ?reg) \<noteq> []" by (simp add: registry_def hub_def)
  have n: "(1::int) \<le> 2" by simp
  have a: "find_nearest_n_locations taxicab ?reg (point_at 0 0) 2
      = Inr [(hub ''B'' 0 1 True, 1), (hub ''C'' 1 0 True, 1)]"
    by (simp add: find_nearest_n_locations_def registry_def hub_def distances_of_def
          distance_to_def taxicab_def point_at_def sorted_py_def slice_to_def)
  from nearest_n_head_is_nearest [OF ne n, of taxicab "point_at 0 0"] a
  have "find_nearest_location taxicab ?reg (point_at 0 0) = Inr (hub ''B'' 0 1 True, 1)"
    by simp
  with ne a show ?thesis by simp
qed


section \<open>Absence of candidates\<close>

lemma min_neg: "n < 0 \<Longrightarrow> min (L::nat) (nat (int L + n)) = L - nat (- n)"
  by arith

lemma length_slice_to_neg:
  "n < 0 \<Longrightarrow> length (take (nat (int (length xs) + n)) xs) = length xs - nat (- n)"
  unfolding length_take by (rule min_neg)

lemma find_nearest_location_no_active:
  assumes "filter active (locations self) = []"
  shows "\<exists>msg. find_nearest_location haversine self c = Inl (LocationServiceError msg)"
  using assms by (simp add: find_nearest_location_def)

lemma find_nearest_n_locations_no_active:
  assumes "filter active (locations self) = []"
  shows "\<exists>msg. find_nearest_n_locations haversine self c n = Inl (LocationServiceError msg)"
  using assms by (simp add: find_nearest_n_locations_def)

lemma find_nearest_location_some_active:
  assumes "filter active (locations self) \<noteq> []"
  shows "\<exists>r. find_nearest_location haversine self c = Inr r"
proof -
  from assms obtain a as where f: "filter active (locations self) = a # as"
    by (cases "filter active (locations self)") simp_all
  from find_nearest_location_eq [OF f] show ?thesis by (rule exI)
qed


text \<open>
  C2. \<^verbatim>\<open>find_nearest_location\<close> and \<^verbatim>\<open>find_nearest_n_locations\<close> raise
  \<^verbatim>\<open>LocationServiceError\<close> exactly when the registry has no active hub, be it empty or
  all inactive; they raise nothing else, and with no candidate they return no value at
  all: no zero distance, no null hub, no empty list.
\<close>

theorem no_candidates_error_iff_no_active_hub:
  "((\<exists>msg. find_nearest_location haversine self c = Inl (LocationServiceError msg))
      \<longleftrightarrow> filter active (locations self) = [])
   \<and> ((\<exists>msg. find_nearest_n_locations haversine self c n = Inl (LocationServiceError msg))
      \<longleftrightarrow> filter active (locations self) = [])
   \<and> (isl (find_nearest_location haversine self c) \<longleftrightarrow> filter active (locations self) = [])
   \<and> (isl (find_nearest_n_locations haversine self c n)
      \<longleftrightarrow> filter active (locations self) = [])"
proof (cases "filter active (locations self) = []")
  case True
  from find_nearest_location_no_active [OF True, of haversine c]
  obtain m1 where a: "find_nearest_location haversine self c = Inl (LocationServiceError m1)" ..
  from find_nearest_n_locations_no_active [OF True, of haversine c n]
  obtain m2 where b: "find_nearest_n_locations haversine self c n = Inl (LocationServiceError m2)" ..
  show ?thesis unfolding a b using True by simp
next
  case False
  from find_nearest_location_some_active [OF False, of haversine c]
  obtain r where a: "find_nearest_location haversine self c = Inr r" ..
  have b: "find_nearest_n_locations haversine self c n =
     Inr (slice_to n (sort_key snd (distances_of haversine c (filter active (locations self)))))"
    by (rule find_nearest_n_locations_eq [OF False])
  show ?thesis unfolding a b using False by simp
qed

theorem no_candidates_error_iff_no_active_hub_witness:
  "find_nearest_location taxicab (init ''csv'') (point_at 0 0)
      = Inl (LocationServiceError ''No locations loaded'')
   \<and> find_nearest_location taxicab (registry [hub ''A'' 0 0 False]) (point_at 0 0)
      = Inl (LocationServiceError ''No active locations found'')
   \<and> find_nearest_n_locations taxicab (init ''csv'') (point_at 0 0) 3
      = Inl (LocationServiceError ''No locations loaded'')
   \<and> find_nearest_n_locations taxicab (registry [hub ''A'' 0 0 False]) (point_at 0 0) 3
      = Inl (LocationServiceError ''No active locations found'')
   \<and> \<not> isl (find_nearest_location taxicab (registry [hub ''A'' 0 0 True]) (point_at 0 0))
   \<and> \<not> isl (find_nearest_n_locations taxicab (registry [hub ''A'' 0 0 True]) (point_at 0 0) 3)"
proof -
  have a: "filter active (locations (registry [hub ''A'' 0 0 True])) \<noteq> []"
    by (simp add: registry_def hub_def)
  have "\<not> isl (find_nearest_location taxicab (registry [hub ''A'' 0 0 True]) (point_at 0 0))
      \<and> \<not> isl (find_nearest_n_locations taxicab (registry [hub ''A'' 0 0 True]) (point_at 0 0) 3)"
    using no_candidates_error_iff_no_active_hub
            [of taxicab "registry [hub ''A'' 0 0 True]" "point_at 0 0" 3] a
    by simp
  then show ?thesis
    by (simp add: find_nearest_location_def find_nearest_n_locations_def init_def
          registry_def hub_def)
qed


section \<open>The n nearest hubs\<close>

text \<open>
  C3 as stated fails for negative \<open>n\<close>: the slice \<^verbatim>\<open>[:n]\<close> then drops the last
  \<open>-n\<close> pairs of the sorted sequence instead of giving the empty sequence. With three
  active hubs and \<open>n = -1\<close> the call returns the two nearest.
\<close>

theorem nearest_n_negative_counterexample:
  "(-1::int) \<le> 0
   \<and> filter active (locations (registry [hub ''A'' 0 2 True, hub ''B'' 0 1 True, hub ''C'' 1 0 True])) \<noteq> []
   \<and> find_nearest_n_locations taxicab
        (registry [hub ''A'' 0 2 True, hub ''B'' 0 1 True, hub ''C'' 1 0 True]) (point_at 0 0) (-1)
      = Inr [(hub ''B'' 0 1 True, 1), (hub ''C'' 1 0 True, 1)]
   \<and> find_nearest_n_locations taxicab
        (registry [hub ''A'' 0 2 True, hub ''B'' 0 1 True, hub ''C'' 1 0 True]) (point_at 0 0) (-1)
      \<noteq> Inr []"
  by (simp add: find_nearest_n_locations_def registry_def hub_def distances_of_def
        distance_to_def taxicab_def point_at_def sorted_py_def slice_to_def)


text \<open>
  C3, amended. With at least one active hub, \<^verbatim>\<open>find_nearest_n_locations\<close> returns a
  prefix of the pairs of all active hubs sorted ascending by distance, equidistant hubs
  keeping their registry order (the sort is stable). The prefix is empty for \<open>n = 0\<close>, has
  exactly \<open>min n k\<close> pairs for \<open>n > 0\<close>, \<open>k\<close> being the number of active hubs (fewer
  than \<open>n\<close> hubs is no error), and has \<open>k - (-n)\<close> pairs, cut off at zero, for \<open>n < 0\<close>.
\<close>

theorem nearest_n_sorted_stable_prefix:
  assumes "filter active (locations self) \<noteq> []"
  shows "\<exists>rs rest.
           find_nearest_n_locations haversine self c n = Inr rs
         \<and> mset (rs @ rest) = mset (distances_of haversine c (filter active (locations self)))
         \<and> sorted (map snd (rs @ rest))
         \<and> (\<forall>d. filter (\<lambda>p. snd p = d) (rs @ rest)
                 = filter (\<lambda>p. snd p = d)
                     (distances_of haversine c (filter active (locations self))))
         \<and> (n = 0 \<longrightarrow> rs = [])
         \<and> (0 < n \<longrightarrow> length rs = min (nat n) (length (filter active (locations self))))
         \<and> (n < 0 \<longrightarrow> length rs = length (filter active (locations self)) - nat (- n))"
proof -
  define ds where "ds = distances_of haversine c (filter active (locations self))"
  define srt where "srt = sort_key snd ds"
  define k where "k = (if 0 \<le> n then nat n else nat (int (length srt) + n))"
  have len: "length srt = length (filter active (locations self))"
    by (simp add: srt_def ds_def distances_of_def)
  have res: "find_nearest_n_locations haversine self c n = Inr (take k srt)"
    unfolding k_def srt_def ds_def
    using find_nearest_n_locations_eq [OF assms, of haversine c n]
    by (simp add: slice_to_def)
  have m: "mset (take k srt @ drop k srt) = mset ds"
    by (simp add: srt_def)
  have so: "sorted (map snd (take k srt @ drop k srt))"
    by (simp add: srt_def)
  have st: "\<forall>d. filter (\<lambda>p. snd p = d) (take k srt @ drop k srt) = filter (\<lambda>p. snd p = d) ds"
    by (simp add: srt_def sort_key_stable)
  have z: "n = 0 \<longrightarrow> take k srt = []" by (simp add: k_def)
  have pos: "0 < n \<longrightarrow> length (take k srt) = min (nat n) (length (filter active (locations self)))"
    by (simp add: k_def len min.commute)
  have neg: "n < 0 \<longrightarrow> length (take k srt) = length (filter active (locations self)) - nat (- n)"
  proof
    assume n: "n < 0"
    then have "k = nat (int (length srt) + n)" by (simp add: k_def)
    with length_slice_to_neg [OF n, of srt] show
      "length (take k srt) = length (filter active (locations self)) - nat (- n)"
      by (simp only: len)
  qed
  show ?thesis
    apply (rule exI [of _ "take k srt"], rule exI [of _ "drop k srt"])
    apply (intro conjI)
          apply (rule res)
         apply (rule m [unfolded ds_def])
        apply (rule so)
       apply (rule st [unfolded ds_def])
      apply (rule z)
     apply (rule pos)
    apply (rule neg)
    done
qed

theorem nearest_n_sorted_stable_prefix_witness:
  "filter active (locations (registry [hub ''A'' 0 2 True, hub ''X'' 0 0 False, hub ''B'' 0 1 True])) \<noteq> []
   \<and> find_nearest_n_locations taxicab
        (registry [hub ''A'' 0 2 True, hub ''X'' 0 0 False, hub ''B'' 0 1 True]) (point_at 0 0) 5
      = Inr [(hub ''B'' 0 1 True, 1), (hub ''A'' 0 2 True, 2)]"
proof -
  let ?reg = "registry [hub ''A'' 0 2 True, hub ''X'' 0 0 False, hub ''B'' 0 1 True]"
  have ne: "filter active (locations ?reg) \<noteq> []" by (simp add: registry_def hub_def)
  have "find_nearest_n_locations taxicab ?reg (point_at 0 0) 5
      = Inr [(hub ''B'' 0 1 True, 1), (hub ''A'' 0 2 True, 2)]"
    by (simp add: find_nearest_n_locations_def registry_def hub_def distances_of_def
          distance_to_def taxicab_def point_at_def sorted_py_def slice_to_def)
  with ne nearest_n_sorted_stable_prefix [OF ne, of taxicab "point_at 0 0" 5]
  show ?thesis by simp
qed


section \<open>Facts about the loaders\<close>

lemma getitem_Inl: "getitem k v = Inl e \<Longrightarrow> e = KeyError k"
  by (cases v) (simp_all add: getitem_def)

lemma float_py_Inl:
  "float_py pf c = Inl e \<Longrightarrow> (\<exists>m. e = ValueError m) \<or> (c = Null \<and> (\<exists>m. e = TypeError m))"
  by (cases c) (auto simp: float_py_def split: option.splits)

lemma make_Coordinates_Inl: "make_Coordinates lat lon = Inl e \<Longrightarrow> \<exists>m. e = ValueError m"
  by (auto simp: make_Coordinates_def split: option.splits)

lemma make_location_Inl:
  assumes "make_location pf r = Inl e"
  shows "(\<exists>m. e = KeyError m) \<or> (\<exists>m. e = ValueError m) \<or> (\<exists>m. e = TypeError m)"
  using assms unfolding make_location_def
  by (auto split: sum.splits dest: getitem_Inl float_py_Inl make_Coordinates_Inl)

lemma escapes_iff_TypeError: "escapes pf r \<longleftrightarrow> (\<exists>m. make_location pf r = Inl (TypeError m))"
proof (cases "make_location pf r")
  case (Inr l)
  then show ?thesis by (simp add: escapes_def)
next
  case (Inl e)
  from make_location_Inl [OF Inl] Inl show ?thesis by (auto simp: escapes_def)
qed

lemma hubs_of_Cons:
  "hubs_of pf (r # rows) =
     (case make_location pf r of Inr l \<Rightarrow> [l] | Inl e \<Rightarrow> []) @ hubs_of pf rows"
  by (simp add: hubs_of_def)

lemma process_rows_Inr:
  "make_location pf r = Inr l \<Longrightarrow>
     process_rows pf (r # rows) self =
       (fst (process_rows pf rows (self\<lparr>locations := locations self @ [l]\<rparr>)),
        self # snd (process_rows pf rows (self\<lparr>locations := locations self @ [l]\<rparr>)))"
  by (simp split: prod.splits)

lemma process_rows_skip:
  assumes "make_location pf r = Inl e" and "\<not> escapes pf r"
  shows "process_rows pf (r # rows) self = process_rows pf rows self"
  using assms by (cases e) (simp_all add: escapes_def)

lemma process_rows_escape:
  assumes "escapes pf r"
  shows "\<exists>m. process_rows pf (r # rows) self = (Inl (TypeError m), [self])"
proof -
  from assms obtain m where "make_location pf r = Inl (TypeError m)"
    unfolding escapes_iff_TypeError ..
  then have "process_rows pf (r # rows) self = (Inl (TypeError m), [self])" by simp
  then show ?thesis ..
qed

lemma process_rows_fails_iff:
  "isl (fst (process_rows pf rows self)) \<longleftrightarrow> (\<exists>r\<in>set rows. escapes pf r)"
proof (induction rows arbitrary: self)
  case Nil
  show ?case by simp
next
  case (Cons r rows)
  show ?case
  proof (cases "escapes pf r")
    case True
    from process_rows_escape [OF True, of rows self] True show ?thesis by auto
  next
    case False
    show ?thesis
    proof (cases "make_location pf r")
      case (Inr l)
      show ?thesis
        unfolding process_rows_Inr [OF Inr] using False Cons.IH by simp
    next
      case (Inl e)
      show ?thesis
        unfolding process_rows_skip [OF Inl False] using False Cons.IH by simp
    qed
  qed
qed

lemma process_rows_error:
  "fst (process_rows pf rows self) = Inl e \<Longrightarrow> \<exists>m. e = TypeError m"
proof (induction rows arbitrary: self)
  case Nil
  then show ?case by simp
next
  case (Cons r rows)
  show ?case
  proof (cases "escapes pf r")
    case True
    from process_rows_escape [OF True, of rows self] Cons.prems show ?thesis by auto
  next
    case False
    show ?thesis
    proof (cases "make_location pf r")
      case (Inr l)
      from Cons.prems show ?thesis
        unfolding process_rows_Inr [OF Inr] using Cons.IH by simp
    next
      case (Inl e')
      from Cons.prems show ?thesis
        unfolding process_rows_skip [OF Inl False] using Cons.IH by simp
    qed
  qed
qed

lemma process_rows_history:
  "snd (process_rows pf rows self) =
     map (\<lambda>ls. self\<lparr>locations := locations self @ ls\<rparr>)
         (prefixes (hubs_of pf (processed pf rows)))"
proof (induction rows arbitrary: self)
  case Nil
  show ?case by (simp add: hubs_of_def processed_def)
next
  case (Cons r rows)
  show ?case
  proof (cases "escapes pf r")
    case True
    from process_rows_escape [OF True, of rows self] True show ?thesis
      by (auto simp: processed_def hubs_of_def)
  next
    case False
    then have pr: "processed pf (r # rows) = r # processed pf rows"
      by (simp add: processed_def)
    show ?thesis
    proof (cases "make_location pf r")
      case (Inr l)
      have "snd (process_rows pf (r # rows) self) =
              self # snd (process_rows pf rows (self\<lparr>locations := locations self @ [l]\<rparr>))"
        unfolding process_rows_Inr [OF Inr] by simp
      also have "\<dots> = self # map (\<lambda>ls. self\<lparr>locations := locations self @ l # ls\<rparr>)
                                (prefixes (hubs_of pf (processed pf rows)))"
        unfolding Cons.IH by simp
      also have "\<dots> = map (\<lambda>ls. self\<lparr>locations := locations self @ ls\<rparr>)
                         (prefixes (l # hubs_of pf (processed pf rows)))"
        by (simp add: comp_def)
      finally show ?thesis by (simp add: pr hubs_of_Cons Inr)
    next
      case (Inl e)
      show ?thesis
        unfolding process_rows_skip [OF Inl False] Cons.IH by (simp add: pr hubs_of_Cons Inl)
    qed
  qed
qed


text \<open>A loader on a source that could be read.\<close>

lemma load_from_Table_history:
  "snd (load_from label pf (Table rows) self) =
     self # map (\<lambda>ls. self\<lparr>locations := ls\<rparr>) (prefixes (hubs_of pf (processed pf rows)))"
proof -
  obtain res h where p: "process_rows pf rows (self\<lparr>locations := []\<rparr>) = (res, h)"
    by (cases "process_rows pf rows (self\<lparr>locations := []\<rparr>)")
  have "h = map (\<lambda>ls. self\<lparr>locations := ls\<rparr>) (prefixes (hubs_of pf (processed pf rows)))"
    using process_rows_history [of pf rows "self\<lparr>locations := []\<rparr>"] p by simp
  then show ?thesis by (cases res) (simp_all add: load_from_def p)
qed

lemma load_from_Table_fails_iff:
  "isl (fst (load_from label pf (Table rows) self)) \<longleftrightarrow> (\<exists>r\<in>set rows. escapes pf r)"
proof -
  obtain res h where p: "process_rows pf rows (self\<lparr>locations := []\<rparr>) = (res, h)"
    by (cases "process_rows pf rows (self\<lparr>locations := []\<rparr>)")
  have "isl res \<longleftrightarrow> (\<exists>r\<in>set rows. escapes pf r)"
    using process_rows_fails_iff [of pf rows "self\<lparr>locations := []\<rparr>"] p by simp
  then show ?thesis by (cases res) (simp_all add: load_from_def p)
qed

lemma load_from_error:
  "fst (load_from label pf src self) = Inl err \<Longrightarrow> \<exists>m. err = LocationServiceError m"
proof (cases src)
  case (Missing m)
  then show "fst (load_from label pf src self) = Inl err \<Longrightarrow> ?thesis"
    by (auto simp: load_from_def)
next
  case (Unreadable m)
  then show "fst (load_from label pf src self) = Inl err \<Longrightarrow> ?thesis"
    by (auto simp: load_from_def)
next
  case (Table rows)
  obtain res h where p: "process_rows pf rows (self\<lparr>locations := []\<rparr>) = (res, h)"
    by (cases "process_rows pf rows (self\<lparr>locations := []\<rparr>)")
  show "fst (load_from label pf src self) = Inl err \<Longrightarrow> ?thesis"
    unfolding Table by (cases res) (auto simp: load_from_def p)
qed

lemma load_from_source_failure:
  assumes "src = Missing m \<or> src = Unreadable m"
  shows "\<exists>m'. load_from label pf src self = (Inl (LocationServiceError m'), [self])"
  using assms by (auto simp: load_from_def)

text \<open>\<^verbatim>\<open>load_locations\<close> in terms of the loader that the configured type selects.\<close>

lemma load_locations_selected:
  assumes "selected_source e self = Some src"
  shows "\<exists>label. load_locations pf e self =
           (case load_from label pf src self of
              (Inl err, history) \<Rightarrow>
                (Inl (LocationServiceError (''Failed to load locations: '' @ message err)), history)
            | (Inr u, history) \<Rightarrow>
                (let self' = (last history)\<lparr>last_loaded := Some (utcnow e)\<rparr>
                 in (Inr (locations self'), history @ [self'])))"
proof -
  consider (csv) "data_source_type self = ''csv''"
    | (sheets) "data_source_type self \<noteq> ''csv''" "data_source_type self = ''google_sheets''"
    | (pg) "data_source_type self \<noteq> ''csv''" "data_source_type self \<noteq> ''google_sheets''"
           "data_source_type self = ''postgres''"
    using assms by (auto simp: selected_source_def split: if_splits)
  then show ?thesis
  proof cases
    case csv
    with assms have "src = csv_file e" by (simp add: selected_source_def)
    with csv show ?thesis
      by (intro exI [of _ "''CSV''"]) (simp add: load_locations_def load_from_csv_def)
  next
    case sheets
    with assms have "src = google_sheet e" by (simp add: selected_source_def)
    with sheets show ?thesis
      by (intro exI [of _ "''Google Sheets''"])
         (simp add: load_locations_def load_from_google_sheets_def)
  next
    case pg
    with assms have "src = database e" by (simp add: selected_source_def)
    with pg show ?thesis
      by (intro exI [of _ "''database''"]) (simp add: load_locations_def load_from_database_def)
  qed
qed

lemma last_history:
  "last (self # map (\<lambda>ls. self\<lparr>locations := ls\<rparr>) (prefixes hubs)) = self\<lparr>locations := hubs\<rparr>"
  by (simp add: prefixes_not_Nil last_map last_prefixes)

lemma load_locations_Table:
  assumes "selected_source e self = Some (Table rows)"
  shows "snd (load_locations pf e self) =
           (self # map (\<lambda>ls. self\<lparr>locations := ls\<rparr>) (prefixes (hubs_of pf (processed pf rows))))
           @ (if \<exists>r\<in>set rows. escapes pf r then []
              else [self\<lparr>locations := hubs_of pf (processed pf rows),
                         last_loaded := Some (utcnow e)\<rparr>])"
    and "isl (fst (load_locations pf e self)) \<longleftrightarrow> (\<exists>r\<in>set rows. escapes pf r)"
    and "\<not> (\<exists>r\<in>set rows. escapes pf r) \<Longrightarrow>
           fst (load_locations pf e self) = Inr (hubs_of pf (processed pf rows))"
proof -
  define H where "H = hubs_of pf (processed pf rows)"
  from load_locations_selected [OF assms, of pf] obtain label where
    ll: "load_locations pf e self =
           (case load_from label pf (Table rows) self of
              (Inl err, history) \<Rightarrow>
                (Inl (LocationServiceError (''Failed to load locations: '' @ message err)), history)
            | (Inr u, history) \<Rightarrow>
                (let self' = (last history)\<lparr>last_loaded := Some (utcnow e)\<rparr>
                 in (Inr (locations self'), history @ [self'])))" ..
  obtain a h where lf: "load_from label pf (Table rows) self = (a, h)"
    by (cases "load_from label pf (Table rows) self")
  have h: "h = self # map (\<lambda>ls. self\<lparr>locations := ls\<rparr>) (prefixes H)"
    using load_from_Table_history [of label pf rows self] lf by (simp add: H_def)
  have a: "isl a \<longleftrightarrow> (\<exists>r\<in>set rows. escapes pf r)"
    using load_from_Table_fails_iff [of label pf rows self] lf by simp
  have lh: "last h = self\<lparr>locations := H\<rparr>" unfolding h by (rule last_history)
  show "snd (load_locations pf e self) =
           (self # map (\<lambda>ls. self\<lparr>locations := ls\<rparr>) (prefixes (hubs_of pf (processed pf rows))))
           @ (if \<exists>r\<in>set rows. escapes pf r then []
              else [self\<lparr>locations := hubs_of pf (processed pf rows),
                         last_loaded := Some (utcnow e)\<rparr>])"
    unfolding H_def [symmetric] ll lf using a lh h by (cases a) (simp_all add: Let_def)
  show "isl (fst (load_locations pf e self)) \<longleftrightarrow> (\<exists>r\<in>set rows. escapes pf r)"
    unfolding ll lf using a by (cases a) (simp_all add: Let_def)
  show "\<not> (\<exists>r\<in>set rows. escapes pf r) \<Longrightarrow>
           fst (load_locations pf e self) = Inr (hubs_of pf (processed pf rows))"
    unfolding H_def [symmetric] ll lf using a lh by (cases a) (simp_all add: Let_def)
qed

lemma load_locations_error:
  assumes "fst (load_locations pf e self) = Inl err"
  shows "\<exists>m. err = LocationServiceError m"
  using assms unfolding load_locations_def
  by (auto split: prod.splits sum.splits simp: Let_def)

lemma load_locations_source_failure:
  assumes "source_level_failure e self"
  shows "\<exists>m. load_locations pf e self = (Inl (LocationServiceError m), [self])"
proof (cases "selected_source e self")
  case None
  then have "data_source_type self \<noteq> ''csv''" "data_source_type self \<noteq> ''google_sheets''"
    "data_source_type self \<noteq> ''postgres''"
    by (auto simp: selected_source_def split: if_splits)
  then show ?thesis by (simp add: load_locations_def)
next
  case (Some src)
  with assms obtain m where src: "src = Missing m \<or> src = Unreadable m"
    by (cases src) (auto simp: source_level_failure_def)
  from load_locations_selected [OF Some, of pf] obtain label where
    ll: "load_locations pf e self =
           (case load_from label pf src self of
              (Inl err, history) \<Rightarrow>
                (Inl (LocationServiceError (''Failed to load locations: '' @ message err)), history)
            | (Inr u, history) \<Rightarrow>
                (let self' = (last history)\<lparr>last_loaded := Some (utcnow e)\<rparr>
                 in (Inr (locations self'), history @ [self'])))" ..
  from load_from_source_failure [OF src, of label pf self] obtain m' where
    "load_from label pf src self = (Inl (LocationServiceError m'), [self])" ..
  then show ?thesis unfolding ll by simp
qed

lemma coordinate_ok_iff:
  "coordinate_ok pf lo hi v \<longleftrightarrow>
     (\<exists>c f x. v = Some c \<and> float_py pf c = Inr f \<and> ge_le lo hi f = Some x)"
proof (cases v)
  case None
  then show ?thesis by (simp add: coordinate_ok_def)
next
  case (Some c)
  show ?thesis
  proof (cases c)
    case (Number f)
    with Some show ?thesis
      by (cases f) (auto simp: coordinate_ok_def float_py_def)
  next
    case (Text s)
    show ?thesis
    proof (cases "pf s")
      case None
      with Some Text show ?thesis by (simp add: coordinate_ok_def float_py_def)
    next
      case (Some f)
      with \<open>v = Some c\<close> Text show ?thesis
        by (cases f) (auto simp: coordinate_ok_def float_py_def)
    qed
  next
    case Null
    with Some show ?thesis by (simp add: coordinate_ok_def float_py_def)
  qed
qed

lemma make_location_Inr_iff:
  "(\<exists>l. make_location pf r = Inr l) \<longleftrightarrow> well_formed pf r"
  unfolding well_formed_def coordinate_ok_iff make_location_def getitem_def make_Coordinates_def
  by (auto split: option.splits sum.splits)

lemma make_location_name:
  "make_location pf r = Inr l \<Longrightarrow> row_name r = Some (name l)"
  unfolding make_location_def getitem_def
  by (auto split: option.splits sum.splits)

lemma hubs_of_length_names:
  "length (hubs_of pf rows) = length (filter (well_formed pf) rows)
   \<and> map name (hubs_of pf rows) = map (\<lambda>r. the (row_name r)) (filter (well_formed pf) rows)"
proof (induction rows)
  case Nil
  show ?case by (simp add: hubs_of_def)
next
  case (Cons r rows)
  show ?case
  proof (cases "make_location pf r")
    case (Inl e)
    then have "\<not> well_formed pf r" using make_location_Inr_iff [of pf r] by simp
    with Inl Cons show ?thesis by (simp add: hubs_of_Cons)
  next
    case (Inr l)
    then have "well_formed pf r" using make_location_Inr_iff [of pf r] by simp
    with Inr Cons make_location_name [OF Inr] show ?thesis by (simp add: hubs_of_Cons)
  qed
qed

lemma hubs_of_filter: "hubs_of pf (filter (well_formed pf) rows) = hubs_of pf rows"
proof (induction rows)
  case Nil
  show ?case by simp
next
  case (Cons r rows)
  show ?case
  proof (cases "make_location pf r")
    case (Inl e)
    then have "\<not> well_formed pf r" using make_location_Inr_iff [of pf r] by simp
    with Inl Cons show ?thesis by (simp add: hubs_of_Cons)
  next
    case (Inr l)
    then have "well_formed pf r" using make_location_Inr_iff [of pf r] by simp
    with Inr Cons show ?thesis by (simp add: hubs_of_Cons)
  qed
qed

lemma make_location_raw:
  "float_py pf lat = Inr (Finite x) \<Longrightarrow> float_py pf lon = Inr (Finite y)
   \<Longrightarrow> - 90 \<le> x \<Longrightarrow> x \<le> 90 \<Longrightarrow> - 180 \<le> y \<Longrightarrow> y \<le> 180
   \<Longrightarrow> make_location pf (raw n lat lon) = Inr (hub n x y True)"
  by (simp add: make_location_def getitem_def make_Coordinates_def raw_def hub_def)


lemma make_location_raw_Null:
  "make_location pf (raw n Null lon)
     = Inl (TypeError ''float() argument must be a string or a real number, not NoneType'')"
  by (simp add: make_location_def getitem_def raw_def float_py_def)

lemma escapes_raw:
  "escapes pf (raw n Null lon)"
  "make_location pf (raw n lat lon) = Inr l \<Longrightarrow> \<not> escapes pf (raw n lat lon)"
  "make_location pf (raw n lat lon) = Inl (ValueError m) \<Longrightarrow> \<not> escapes pf (raw n lat lon)"
  by (simp_all add: escapes_def make_location_raw_Null)

lemma processed_all: "\<forall>r\<in>set rows. \<not> escapes pf r \<Longrightarrow> processed pf rows = rows"
  by (simp add: processed_def)



lemma rows_H1: "make_location parse2 (raw ''H1'' (Text ''10'') (Number (Finite 20)))
             = Inr (hub ''H1'' 10 20 True)"
  by (rule make_location_raw) (simp_all add: float_py_def parse2_def)

lemma rows_H2: "make_location parse2 (raw ''H2'' (Text ''41.5'') (Number (Finite (-87))))
             = Inr (hub ''H2'' 41.5 (-87) True)"
  by (rule make_location_raw) (simp_all add: float_py_def parse2_def)

lemma rows_H3: "make_location parse2 (raw ''H3'' (Text ''abc'') (Number (Finite 5)))
             = Inl (ValueError ''could not convert string to float'')"
  by (simp add: make_location_def getitem_def raw_def float_py_def parse2_def)

lemma rows_H4: "make_location parse2 (raw ''H4'' (Text ''-33'') (Number (Finite 151)))
             = Inr (hub ''H4'' (-33) 151 True)"
  by (rule make_location_raw) (simp_all add: float_py_def parse2_def)

lemma rows_H5: "make_location parse2 (raw ''H5'' (Text ''0'') (Number (Finite 0)))
             = Inr (hub ''H5'' 0 0 True)"
  by (rule make_location_raw) (simp_all add: float_py_def parse2_def)


lemma five_rows_facts:
  "\<not> (\<exists>r\<in>set five_rows. escapes parse2 r)"
  "hubs_of parse2 (processed parse2 five_rows) =
     [hub ''H1'' 10 20 True, hub ''H2'' 41.5 (-87) True,
      hub ''H4'' (-33) 151 True, hub ''H5'' 0 0 True]"
proof -
  show a: "\<not> (\<exists>r\<in>set five_rows. escapes parse2 r)"
    by (simp add: five_rows_def escapes_raw(2) [OF rows_H1] escapes_raw(2) [OF rows_H2]
          escapes_raw(3) [OF rows_H3] escapes_raw(2) [OF rows_H4] escapes_raw(2) [OF rows_H5])
  then have "processed parse2 five_rows = five_rows" by (simp add: processed_all)
  then show "hubs_of parse2 (processed parse2 five_rows) =
     [hub ''H1'' 10 20 True, hub ''H2'' 41.5 (-87) True,
      hub ''H4'' (-33) 151 True, hub ''H5'' 0 0 True]"
    by (simp add: hubs_of_def five_rows_def rows_H1 rows_H2 rows_H3 rows_H4 rows_H5)
qed

lemma five_rows_null_facts:
  "\<exists>r\<in>set five_rows_null. escapes parse2 r"
  "hubs_of parse2 (processed parse2 five_rows_null)
     = [hub ''H1'' 10 20 True, hub ''H2'' 41.5 (-87) True]"
proof -
  show "\<exists>r\<in>set five_rows_null. escapes parse2 r"
    by (simp add: five_rows_null_def escapes_raw(1))
  have "processed parse2 five_rows_null =
          [raw ''H1'' (Text ''10'') (Number (Finite 20)),
           raw ''H2'' (Text ''41.5'') (Number (Finite (-87)))]"
    by (simp add: processed_def five_rows_null_def escapes_raw(1)
          escapes_raw(2) [OF rows_H1] escapes_raw(2) [OF rows_H2])
  then show "hubs_of parse2 (processed parse2 five_rows_null)
     = [hub ''H1'' 10 20 True, hub ''H2'' 41.5 (-87) True]"
    by (simp add: hubs_of_def rows_H1 rows_H2)
qed

lemma selected_samples:
  "selected_source (world src) (registry ls) = Some src"
  "selected_source (world src) (init ''csv'') = Some src"
  "selected_source (pg_world src) (pg_registry ls) = Some src"
  by (simp_all add: selected_source_def world_def registry_def init_def pg_world_def pg_registry_def)


lemma float_py_Null: "float_py pf Null = Inr f \<longleftrightarrow> False"
  by (simp add: float_py_def)

lemma float_py_TypeError: "(\<exists>m. float_py pf c = Inl (TypeError m)) \<longleftrightarrow> c = Null"
  by (cases c) (auto simp: float_py_def split: option.splits)

lemma escapes_iff:
  "escapes pf r \<longleftrightarrow>
     row_name r \<noteq> None \<and> row_address r \<noteq> None
     \<and> (row_latitude r = Some Null
        \<or> (\<exists>c f. row_latitude r = Some c \<and> float_py pf c = Inr f
                  \<and> row_longitude r = Some Null))"
proof (cases "row_name r")
  case None
  then show ?thesis by (simp add: escapes_iff_TypeError make_location_def getitem_def)
next
  case n: (Some nm)
  show ?thesis
  proof (cases "row_address r")
    case None
    with n show ?thesis by (simp add: escapes_iff_TypeError make_location_def getitem_def)
  next
    case a: (Some ad)
    show ?thesis
    proof (cases "row_latitude r")
      case None
      with n a show ?thesis
        by (simp add: escapes_iff_TypeError make_location_def getitem_def)
    next
      case la: (Some c)
      show ?thesis
      proof (cases "float_py pf c")
        case (Inl e)
        with n a la float_py_TypeError [of pf c] show ?thesis
          by (auto simp: escapes_iff_TypeError make_location_def getitem_def float_py_Null)
      next
        case f: (Inr f)
        then have cn: "c \<noteq> Null" by (auto simp: float_py_Null)
        show ?thesis
        proof (cases "row_longitude r")
          case None
          with n a la f cn show ?thesis
            by (simp add: escapes_iff_TypeError make_location_def getitem_def)
        next
          case lo: (Some c')
          show ?thesis
          proof (cases "float_py pf c'")
            case (Inl e)
            with n a la f cn lo float_py_TypeError [of pf c'] show ?thesis
              by (auto simp: escapes_iff_TypeError make_location_def getitem_def float_py_Null)
          next
            case g: (Inr g)
            then have "c' \<noteq> Null" by (auto simp: float_py_Null)
            with n a la f cn lo g show ?thesis
              by (auto simp: escapes_iff_TypeError make_location_def getitem_def
                    split: sum.splits dest: make_Coordinates_Inl)
          qed
        qed
      qed
    qed
  qed
qed

text \<open>
  Where no raw record escapes the handlers, every loader skips the records that are not
  well-formed and loads the others, in order.
\<close>

lemma load_skips_caught_rows:
  assumes "selected_source e self = Some (Table rows)" and "\<forall>r\<in>set rows. \<not> escapes pf r"
  shows "fst (load_locations pf e self) = Inr (hubs_of pf rows)"
    and "locations (last (snd (load_locations pf e self))) = hubs_of pf rows"
    and "hubs_of pf rows = hubs_of pf (filter (well_formed pf) rows)"
    and "length (hubs_of pf rows) = length (filter (well_formed pf) rows)"
proof -
  from assms(2) have ne: "\<not> (\<exists>r\<in>set rows. escapes pf r)" by simp
  from assms(2) have pr: "processed pf rows = rows" by (rule processed_all)
  show "fst (load_locations pf e self) = Inr (hubs_of pf rows)"
    using load_locations_Table(3) [OF assms(1) ne] by (simp only: pr)
  show "locations (last (snd (load_locations pf e self))) = hubs_of pf rows"
    using load_locations_Table(1) [OF assms(1), of pf] ne by (simp add: pr)
  show "hubs_of pf rows = hubs_of pf (filter (well_formed pf) rows)"
    by (rule hubs_of_filter [symmetric])
  show "length (hubs_of pf rows) = length (filter (well_formed pf) rows)"
    by (rule hubs_of_length_names [THEN conjunct1])
qed

lemma load_five_rows_csv:
  "fst (load_locations parse2 (world (Table five_rows)) (init ''csv''))
     = Inr [hub ''H1'' 10 20 True, hub ''H2'' 41.5 (-87) True,
            hub ''H4'' (-33) 151 True, hub ''H5'' 0 0 True]"
  using load_locations_Table(3) [OF selected_samples(2) five_rows_facts(1)]
  by (simp only: five_rows_facts(2))


section \<open>Loading: what the registry goes through\<close>





section \<open>Loading: failure of the source\<close>

text \<open>
  C6. Whenever \<^verbatim>\<open>load_locations\<close> (and so \<^verbatim>\<open>reload_locations\<close>) fails because of the
  source (the configured type is unsupported, or the source is missing, not configured
  or cannot be read), it raises \<^verbatim>\<open>LocationServiceError\<close> and the service object has
  not changed at all: its hub sequence and its \<^verbatim>\<open>last_loaded\<close> are those before the
  call. All these failures are raised before \<^verbatim>\<open>self.locations\<close> is cleared.
\<close>

theorem failed_load_leaves_registry_unchanged:
  assumes "source_level_failure e self"
  shows "(\<exists>m. fst (load_locations pf e self) = Inl (LocationServiceError m))
       \<and> snd (load_locations pf e self) = [self]
       \<and> locations (last (snd (load_locations pf e self))) = locations self
       \<and> last_loaded (last (snd (load_locations pf e self))) = last_loaded self
       \<and> reload_locations pf e self = load_locations pf e self"
proof -
  from load_locations_source_failure [OF assms, of pf] obtain m where
    "load_locations pf e self = (Inl (LocationServiceError m), [self])" ..
  then show ?thesis by (simp add: reload_locations_def)
qed

theorem failed_load_leaves_registry_unchanged_witness:
  "source_level_failure (world (Missing ''CSV file not found: data/locations.csv''))
      (registry [hub ''Old'' 1 1 True])
   \<and> source_level_failure (pg_world (Unreadable ''connection refused''))
      (pg_registry [hub ''Old'' 1 1 True])
   \<and> fst (load_locations parse2 (world (Missing ''CSV file not found: data/locations.csv''))
          (registry [hub ''Old'' 1 1 True]))
     = Inl (LocationServiceError ''Failed to load locations: CSV file not found: data/locations.csv'')
   \<and> snd (load_locations parse2 (world (Missing ''CSV file not found: data/locations.csv''))
          (registry [hub ''Old'' 1 1 True]))
     = [registry [hub ''Old'' 1 1 True]]
   \<and> snd (load_locations parse2 (pg_world (Unreadable ''connection refused''))
          (pg_registry [hub ''Old'' 1 1 True]))
     = [pg_registry [hub ''Old'' 1 1 True]]"
proof -
  let ?e = "world (Missing ''CSV file not found: data/locations.csv'')"
  let ?s = "registry [hub ''Old'' 1 1 True]"
  have a: "source_level_failure ?e ?s"
    by (simp add: source_level_failure_def selected_samples)
  have b: "source_level_failure (pg_world (Unreadable ''connection refused''))
             (pg_registry [hub ''Old'' 1 1 True])"
    by (simp add: source_level_failure_def selected_samples)
  have c: "fst (load_locations parse2 ?e ?s)
     = Inl (LocationServiceError ''Failed to load locations: CSV file not found: data/locations.csv'')"
    by (simp add: load_locations_def load_from_csv_def load_from_def world_def registry_def)
  from failed_load_leaves_registry_unchanged [OF a, of parse2]
       failed_load_leaves_registry_unchanged [OF b, of parse2] a b c
  show ?thesis by (intro conjI) (elim conjE, assumption)+
qed


section \<open>Loading: malformed records\<close>

text \<open>
  C7 says that a raw record with a missing required field or a non-numeric or
  out-of-range coordinate is skipped and the load goes on, so that five records of which
  one has a non-numeric latitude give four hubs and no error. The row handlers do this
  for \<^verbatim>\<open>KeyError\<close> and \<^verbatim>\<open>ValueError\<close> (\<open>load_skips_caught_rows\<close>,
  \<open>load_five_rows_csv\<close>), but a latitude that is \<^verbatim>\<open>None\<close> makes \<^verbatim>\<open>float\<close> raise
  \<^verbatim>\<open>TypeError\<close>, which they do not catch. Loading from the database five records, four
  of them well-formed and the third with a NULL latitude, fails with
  \<^verbatim>\<open>LocationServiceError\<close> and leaves the registry with the two hubs before that
  record, \<^verbatim>\<open>last_loaded\<close> unchanged.
\<close>

theorem none_latitude_aborts_database_load:
  "length five_rows_null = 5
   \<and> length (filter (well_formed parse2) five_rows_null) = 4
   \<and> fst (load_locations parse2 (pg_world (Table five_rows_null))
            (pg_registry [hub ''Old'' 1 1 True]))
       = Inl (LocationServiceError
           (''Failed to load locations: Error loading from database: ''
            @ ''float() argument must be a string or a real number, not NoneType''))
   \<and> map locations (snd (load_locations parse2 (pg_world (Table five_rows_null))
                            (pg_registry [hub ''Old'' 1 1 True])))
       = [[hub ''Old'' 1 1 True], [], [hub ''H1'' 10 20 True],
          [hub ''H1'' 10 20 True, hub ''H2'' 41.5 (-87) True]]
   \<and> last_loaded (last (snd (load_locations parse2 (pg_world (Table five_rows_null))
                            (pg_registry [hub ''Old'' 1 1 True])))) = Some 7"
proof -
  let ?e = "pg_world (Table five_rows_null)"
  let ?s = "pg_registry [hub ''Old'' 1 1 True]"
  have len: "length five_rows_null = 5" by (simp add: five_rows_null_def)
  have wf: "length (filter (well_formed parse2) five_rows_null) = 4"
    using hubs_of_length_names [of parse2 five_rows_null, THEN conjunct1, symmetric]
    by (simp add: hubs_of_def five_rows_null_def rows_H1 rows_H2 rows_H4 rows_H5
          make_location_raw_Null)
  have p: "process_rows parse2 five_rows_null (?s\<lparr>locations := []\<rparr>)
     = (Inl (TypeError ''float() argument must be a string or a real number, not NoneType''),
        [?s\<lparr>locations := []\<rparr>,
         ?s\<lparr>locations := [hub ''H1'' 10 20 True]\<rparr>,
         ?s\<lparr>locations := [hub ''H1'' 10 20 True, hub ''H2'' 41.5 (-87) True]\<rparr>])"
    by (simp add: five_rows_null_def rows_H1 rows_H2 make_location_raw_Null)
  have ll: "load_locations parse2 ?e ?s
     = (Inl (LocationServiceError
           (''Failed to load locations: Error loading from database: ''
            @ ''float() argument must be a string or a real number, not NoneType'')),
        [?s, ?s\<lparr>locations := []\<rparr>,
         ?s\<lparr>locations := [hub ''H1'' 10 20 True]\<rparr>,
         ?s\<lparr>locations := [hub ''H1'' 10 20 True, hub ''H2'' 41.5 (-87) True]\<rparr>])"
  proof -
    have t: "data_source_type ?s = ''postgres''" by (simp add: pg_registry_def)
    have d: "database ?e = Table five_rows_null" by (simp add: pg_world_def)
    show ?thesis
      by (simp add: load_locations_def load_from_database_def load_from_def p t d)
  qed
  show ?thesis unfolding ll using len wf by (simp add: pg_registry_def)
qed


section \<open>The distance function\<close>

lemma sin_half_diff_sq: "(sin ((a - b) / 2))\<^sup>2 = (sin ((b - a :: real) / 2))\<^sup>2"
proof -
  have "(a - b) / 2 = - ((b - a) / 2)" by (simp add: field_simps)
  then have "sin ((a - b) / 2) = - sin ((b - a) / 2)" by (simp only: sin_minus)
  then show ?thesis by (simp only: power2_minus)
qed

lemma haversine_km_sym: "haversine_km p q = haversine_km q p"
proof -
  have 1: "(sin ((radians (fst q) - radians (fst p)) / 2))\<^sup>2
         = (sin ((radians (fst p) - radians (fst q)) / 2))\<^sup>2" by (rule sin_half_diff_sq)
  have 2: "(sin ((radians (snd q) - radians (snd p)) / 2))\<^sup>2
         = (sin ((radians (snd p) - radians (snd q)) / 2))\<^sup>2" by (rule sin_half_diff_sq)
  have 3: "cos (radians (fst p)) * cos (radians (fst q))
         = cos (radians (fst q)) * cos (radians (fst p))" by (rule mult.commute)
  show ?thesis unfolding haversine_km_def Let_def 1 2 3 ..
qed

lemma haversine_km_self: "haversine_km p p = 0"
  by (simp add: haversine_km_def atan2_def)

text \<open>
  C8. The distance function \<^verbatim>\<open>calculate_distance\<close> is symmetric, so within any relative
  tolerance and in particular within \<open>10\<^sup>-\<^sup>9\<close>, and the distance from a point to itself
  is exactly 0. The statement is about the haversine formula over the real numbers.
\<close>

theorem distance_symmetric_and_zero_on_self:
  "calculate_distance haversine_km p q = calculate_distance haversine_km q p
   \<and> \<bar>calculate_distance haversine_km p q - calculate_distance haversine_km q p\<bar>
       \<le> (1 / 10 ^ 9) * max \<bar>calculate_distance haversine_km p q\<bar>
                               \<bar>calculate_distance haversine_km q p\<bar>
   \<and> calculate_distance haversine_km p p = 0"
proof -
  have s: "calculate_distance haversine_km p q = calculate_distance haversine_km q p"
    unfolding calculate_distance_def Let_def by (rule haversine_km_sym)
  have z: "calculate_distance haversine_km p p = 0"
    unfolding calculate_distance_def Let_def by (rule haversine_km_self)
  have t: "\<bar>calculate_distance haversine_km p q - calculate_distance haversine_km q p\<bar>
       \<le> (1 / 10 ^ 9) * max \<bar>calculate_distance haversine_km p q\<bar>
                               \<bar>calculate_distance haversine_km q p\<bar>"
    unfolding s by simp
  from s t z show ?thesis by (intro conjI)
qed

theorem distance_symmetric_and_zero_on_self_witness:
  "calculate_distance haversine_km (point_at 41.8781 (-87.6298)) (point_at 39.7817 (-89.6501))
     = calculate_distance haversine_km (point_at 39.7817 (-89.6501)) (point_at 41.8781 (-87.6298))
   \<and> calculate_distance haversine_km (point_at 41.8781 (-87.6298)) (point_at 41.8781 (-87.6298)) = 0"
  using distance_symmetric_and_zero_on_self
          [of "point_at 41.8781 (-87.6298)" "point_at 39.7817 (-89.6501)"]
  by (intro conjI) (elim conjE, assumption)+

end
